theory Spec2Isabelle
  imports Complex_Main
begin

section \<open>Wall-clock time and the outside world\<close>

text \<open>
  The fields of a \<^verbatim>\<open>datetime\<close> value that the watch reads. They are Python
  integers; \<^verbatim>\<open>datetime\<close> keeps them in the ranges of \<open>valid_time\<close>.
\<close>

record time =
  hour :: int
  minute :: int
  second :: int

definition valid_time :: "time \<Rightarrow> bool" where
  "valid_time t =
     (0 \<le> hour t \<and> hour t < 24 \<and> 0 \<le> minute t \<and> minute t < 60 \<and>
      0 \<le> second t \<and> second t < 60)"

definition hms :: "int \<Rightarrow> int \<Rightarrow> int \<Rightarrow> time" where
  "hms h m s = \<lparr>hour = h, minute = m, second = s\<rparr>"

text \<open>
  Calls that leave the watch object: an update of one of the three hands, the two turtle
  calls of the digital display, and the alarm hook \<^verbatim>\<open>_trigger_alarm\<close>. They are
  recorded in the order in which they are made.
\<close>

datatype hand_ref = HourHand | MinuteHand | SecondHand

datatype event =
    HandUpdate hand_ref rat
  | TurtleClear
  | TurtleWrite string string "string \<times> int \<times> string"
  | TriggerAlarm

text \<open>
  The world outside the object: \<open>clock\<close> gives the successive results of
  \<^verbatim>\<open>datetime.now()\<close>, \<open>reads\<close> counts how many have been taken, \<open>trace\<close> is
  the record of calls.
\<close>

record env =
  clock :: "nat \<Rightarrow> time"
  reads :: nat
  trace :: "event list"

definition datetime_now :: "env \<Rightarrow> time \<times> env" where
  "datetime_now e = (clock e (reads e), e\<lparr>reads := Suc (reads e)\<rparr>)"

definition emit :: "event \<Rightarrow> env \<Rightarrow> env" where
  "emit ev e = e\<lparr>trace := trace e @ [ev]\<rparr>"

section \<open>Python floats\<close>

text \<open>
  A Python float is an IEEE 754 double. A finite double is a rational number, and the
  result of an arithmetic operation on doubles is the exact result rounded to the nearest
  double, a tie going to the even significand: \<open>to_float\<close>. A double has 53
  significant bits, so the spacing of the doubles around \<open>x\<close> is
  \<open>2 powi (exponent \<bar>x\<bar> - 52)\<close>, where \<open>exponent x\<close> is the integer \<open>e\<close> with
  \<open>2 powi e \<le> x < 2 powi (e + 1)\<close>, computed from the number of bits of the integer part
  of \<open>x\<close> or of \<open>1 / x\<close>. Overflow and subnormal numbers are left out: the numbers of
  this program are angles and lengths, far from both. A float literal and the conversion
  of an integer in an arithmetic operation round as well.
\<close>

fun bitlen :: "nat \<Rightarrow> nat" where
  "bitlen n = (if n = 0 then 0 else Suc (bitlen (n div 2)))"

declare bitlen.simps [simp del]

definition exponent :: "rat \<Rightarrow> int" where
  "exponent x =
     (if 1 \<le> x then int (bitlen (nat \<lfloor>x\<rfloor>)) - 1
      else - int (bitlen (nat (\<lceil>1 / x\<rceil> - 1))))"

definition round_half_even :: "rat \<Rightarrow> int" where
  "round_half_even y =
     (let f = \<lfloor>y\<rfloor>; r = y - of_int f
      in if r < 1 / 2 then f else if 1 / 2 < r then f + 1 else if even f then f else f + 1)"

definition to_float :: "rat \<Rightarrow> rat" where
  "to_float x =
     (if x = 0 then 0
      else (let u = 2 powi (exponent \<bar>x\<bar> - 52)
            in of_int (round_half_even (x / u)) * u))"

definition float_of_int :: "int \<Rightarrow> rat" where
  "float_of_int n = to_float (of_int n)"

definition float_mul :: "rat \<Rightarrow> rat \<Rightarrow> rat" where
  "float_mul a b = to_float (a * b)"

definition float_add :: "rat \<Rightarrow> rat \<Rightarrow> rat" where
  "float_add a b = to_float (a + b)"

section \<open>Digit, ClockFace, Hand\<close>

text \<open>
  The turtle handles of the objects are opaque and are left out of the records. Fields
  whose Python name is taken in HOL, or is the name of a field of another class, carry
  the class in their name: \<open>digit_value\<close>, \<open>digit_size\<close>, \<open>face_radius\<close>,
  \<open>face_center\<close>, \<open>hand_length\<close>. \<^verbatim>\<open>Digit.draw\<close>,
  \<^verbatim>\<open>ClockFace.setup\<close>, \<^verbatim>\<open>ClockFace.draw\<close>, \<^verbatim>\<open>Hand.draw\<close> and
  \<^verbatim>\<open>Hand.update\<close> have the body \<^verbatim>\<open>pass\<close>: they return the object as it
  is.
\<close>

record Digit =
  digit_value :: int
  position :: "rat \<times> rat"
  digit_size :: rat

record ClockFace =
  face_radius :: rat
  face_center :: "rat \<times> rat"
  digits :: "Digit list"

definition ClockFace_init :: "rat \<Rightarrow> rat \<times> rat \<Rightarrow> ClockFace" where
  "ClockFace_init r c = \<lparr>face_radius = r, face_center = c, digits = []\<rparr>"

definition ClockFace_setup :: "ClockFace \<Rightarrow> ClockFace" where
  "ClockFace_setup f = f"

definition ClockFace_draw :: "ClockFace \<Rightarrow> ClockFace" where
  "ClockFace_draw f = f"

record Hand =
  hand_length :: rat
  width :: rat
  color :: string
  center :: "rat \<times> rat"
  angle :: rat

definition Hand_init :: "rat \<Rightarrow> rat \<Rightarrow> string \<Rightarrow> rat \<times> rat \<Rightarrow> Hand" where
  "Hand_init l w c p = \<lparr>hand_length = l, width = w, color = c, center = p, angle = 0\<rparr>"

definition Hand_draw :: "Hand \<Rightarrow> Hand" where
  "Hand_draw h = h"

definition Hand_update :: "Hand \<Rightarrow> rat \<Rightarrow> Hand" where
  "Hand_update h a = h"

section \<open>Themes\<close>

record Theme =
  background_color :: string
  face_color :: string
  digit_color :: string
  hour_hand_color :: string
  minute_hand_color :: string
  second_hand_color :: string

definition LightTheme :: Theme where
  "LightTheme =
     \<lparr>background_color = ''white'', face_color = ''#f0f0f0'', digit_color = ''black'',
      hour_hand_color = ''black'', minute_hand_color = ''blue'',
      second_hand_color = ''red''\<rparr>"

definition DarkTheme :: Theme where
  "DarkTheme =
     \<lparr>background_color = ''#1a1a1a'', face_color = ''#333333'', digit_color = ''white'',
      hour_hand_color = ''white'', minute_hand_color = ''#66a3ff'',
      second_hand_color = ''#ff6666''\<rparr>"

section \<open>Watch and its run loop\<close>

text \<open>
  \<^verbatim>\<open>Watch.__init__\<close> stores the theme and configures the screen: background colour,
  title, tracer 0.
\<close>

record Screen =
  bgcolor :: string
  title :: string
  tracer :: int

record Watch =
  theme :: Theme
  screen :: Screen

definition configure_screen :: "Theme \<Rightarrow> Screen" where
  "configure_screen th =
     \<lparr>bgcolor = background_color th, title = ''Python Turtle Watch'', tracer = 0\<rparr>"

definition Watch_init :: "Theme \<Rightarrow> Watch" where
  "Watch_init th = \<lparr>theme = th, screen = configure_screen th\<rparr>"

text \<open>
  \<^verbatim>\<open>Watch.run\<close> calls the abstract \<^verbatim>\<open>setup\<close> and \<^verbatim>\<open>update\<close>, the screen's
  \<^verbatim>\<open>update\<close> and \<^verbatim>\<open>time.sleep\<close>. Each of these calls either returns or
  raises. For \<^verbatim>\<open>setup\<close>, \<^verbatim>\<open>update\<close> and the screen's \<^verbatim>\<open>update\<close> this is
  given from outside, by the number of the call (\<open>None\<close>: it returns).
  \<^verbatim>\<open>time.sleep\<close> raises \<^verbatim>\<open>ValueError\<close> when its argument is negative, before it
  sleeps; otherwise what happens while it sleeps is given from outside as well. The only
  handler is \<^verbatim>\<open>except (KeyboardInterrupt, turtle.Terminator): break\<close> around the
  three calls of the loop body; \<^verbatim>\<open>setup\<close> is called outside of it.

  The loop is \<^verbatim>\<open>while True\<close>, so the model counts the iterations it may still
  make: with none left the outcome is \<open>Running\<close>. The calls made so far are returned
  with every outcome.
\<close>

datatype exn = KeyboardInterrupt | Terminator | ValueError | OtherException

datatype step = Setup | Update | ScreenUpdate | Sleep rat










section \<open>AnalogWatch\<close>

record AnalogWatch = Watch +
  radius :: rat
  clock_face :: ClockFace
  hour_hand :: Hand
  minute_hand :: Hand
  second_hand :: Hand

definition AnalogWatch_init :: "Theme \<Rightarrow> rat \<Rightarrow> AnalogWatch" where
  "AnalogWatch_init th r =
     Watch.extend (Watch_init th)
       (AnalogWatch.fields r (ClockFace_init r (0, 0))
          (Hand_init (float_mul (to_float r) (to_float (1 / 2))) 6 (hour_hand_color th) (0, 0))
          (Hand_init (float_mul (to_float r) (to_float (7 / 10))) 4 (minute_hand_color th) (0, 0))
          (Hand_init (float_mul (to_float r) (to_float (9 / 10))) 2 (second_hand_color th) (0, 0)))"

definition AnalogWatch_setup :: "'a AnalogWatch_scheme \<Rightarrow> 'a AnalogWatch_scheme" where
  "AnalogWatch_setup w =
     (let w1 = w\<lparr>clock_face := ClockFace_setup (clock_face w)\<rparr>
      in w1\<lparr>clock_face := ClockFace_draw (clock_face w1)\<rparr>)"

text \<open>
  The three local variables of \<^verbatim>\<open>AnalogWatch.update\<close>. \<^verbatim>\<open>second_angle\<close> is
  a Python integer. In the other two an integer meets a float: the integer is converted
  and the operation is the one on doubles.
\<close>

definition second_angle :: "time \<Rightarrow> rat" where
  "second_angle current_time = of_int (second current_time * 6)"

definition minute_angle :: "time \<Rightarrow> rat" where
  "minute_angle current_time =
     float_add (float_of_int (minute current_time * 6))
       (float_mul (float_of_int (second current_time)) (to_float (1 / 10)))"

definition hour_angle :: "time \<Rightarrow> rat" where
  "hour_angle current_time =
     float_add (float_of_int ((hour current_time mod 12) * 30))
       (float_mul (float_of_int (minute current_time)) (to_float (1 / 2)))"

definition AnalogWatch_update ::
  "'a AnalogWatch_scheme \<Rightarrow> env \<Rightarrow> 'a AnalogWatch_scheme \<times> env" where
  "AnalogWatch_update w e =
     (let (current_time, e0) = datetime_now e;
          w1 = w\<lparr>hour_hand := Hand_update (hour_hand w) (hour_angle current_time)\<rparr>;
          e1 = emit (HandUpdate HourHand (hour_angle current_time)) e0;
          w2 = w1\<lparr>minute_hand := Hand_update (minute_hand w1) (minute_angle current_time)\<rparr>;
          e2 = emit (HandUpdate MinuteHand (minute_angle current_time)) e1;
          w3 = w2\<lparr>second_hand := Hand_update (second_hand w2) (second_angle current_time)\<rparr>;
          e3 = emit (HandUpdate SecondHand (second_angle current_time)) e2
      in (w3, e3))"

text \<open>
  Reduction modulo 360 as the specification uses it for an angle: the representative in
  \<open>[0, 360)\<close>.
\<close>

definition mod360 :: "rat \<Rightarrow> rat" where
  "mod360 x = x - 360 * of_int \<lfloor>x / 360\<rfloor>"

section \<open>DigitalWatch\<close>

definition HOURS_24 :: string where
  "HOURS_24 = ''24h''"

definition HOURS_12 :: string where
  "HOURS_12 = ''12h''"

record DigitalWatch = Watch +
  time_format :: string

definition DigitalWatch_init :: "Theme \<Rightarrow> string \<Rightarrow> DigitalWatch" where
  "DigitalWatch_init th tf = Watch.extend (Watch_init th) (DigitalWatch.fields tf)"

text \<open>
  The format specification \<^verbatim>\<open>02d\<close>: the decimal digits of the integer, a minus
  sign in front of a negative one, zeros on the left up to a width of two.
\<close>

definition digit_char :: "nat \<Rightarrow> char" where
  "digit_char d = ''0123456789'' ! d"

fun dec_digits :: "nat \<Rightarrow> string" where
  "dec_digits n =
     (if n < 10 then [digit_char n] else dec_digits (n div 10) @ [digit_char (n mod 10)])"

declare dec_digits.simps [simp del]

definition fmt02d :: "int \<Rightarrow> string" where
  "fmt02d n =
     (if n < 0 then ''-'' @ dec_digits (nat (- n))
      else (let d = dec_digits (nat n) in replicate (2 - length d) CHR ''0'' @ d))"

text \<open>
  The local variable \<^verbatim>\<open>time_str\<close> of \<^verbatim>\<open>DigitalWatch.update\<close>, from the time
  format of the watch and the time read.
\<close>

definition time_str :: "string \<Rightarrow> time \<Rightarrow> string" where
  "time_str tf current_time =
     (if tf = HOURS_12 then
        (let hour0 = hour current_time mod 12;
             hour1 = (if hour0 = 0 then 12 else hour0);
             am_pm = (if hour current_time < 12 then ''AM'' else ''PM'')
         in fmt02d hour1 @ '':'' @ fmt02d (minute current_time) @ '':'' @
            fmt02d (second current_time) @ '' '' @ am_pm)
      else fmt02d (hour current_time) @ '':'' @ fmt02d (minute current_time) @ '':'' @
           fmt02d (second current_time))"

definition DigitalWatch_update ::
  "'a DigitalWatch_scheme \<Rightarrow> env \<Rightarrow> 'a DigitalWatch_scheme \<times> env" where
  "DigitalWatch_update w e =
     (let (current_time, e0) = datetime_now e;
          s = time_str (time_format w) current_time;
          e1 = emit TurtleClear e0;
          e2 = emit (TurtleWrite s ''center'' (''Arial'', 36, ''bold'')) e1
      in (w, e2))"

text \<open>
  The formatting rule in the words of the specification: two decimal digits for each
  field; in the 12-hour format the displayed hour is 12 for hour 0, the hour itself for
  1 to 11, 12 for 12 and the hour less 12 for 13 to 23, with AM before noon and PM from
  noon on.
\<close>

definition two_digits :: "int \<Rightarrow> string" where
  "two_digits n = [digit_char (nat (n div 10)), digit_char (nat (n mod 10))]"

definition display_hour :: "int \<Rightarrow> int" where
  "display_hour h =
     (if h = 0 then 12 else if 1 \<le> h \<and> h \<le> 11 then h else if h = 12 then 12 else h - 12)"

definition spec_24h :: "time \<Rightarrow> string" where
  "spec_24h t = two_digits (hour t) @ '':'' @ two_digits (minute t) @ '':'' @
     two_digits (second t)"

definition spec_12h :: "time \<Rightarrow> string" where
  "spec_12h t = two_digits (display_hour (hour t)) @ '':'' @ two_digits (minute t) @ '':'' @
     two_digits (second t) @ '' '' @ (if hour t < 12 then ''AM'' else ''PM'')"

section \<open>Alarm\<close>

text \<open>
  \<^verbatim>\<open>Alarm.alarms\<close> is a Python list of \<^verbatim>\<open>(hour, minute, second)\<close> tuples.
  \<^verbatim>\<open>list.append\<close> adds at the end, \<^verbatim>\<open>list.remove\<close> deletes the first
  occurrence, \<^verbatim>\<open>in\<close> tests membership. Every method takes the object and returns
  its result together with the object after the call. The default \<^verbatim>\<open>second=0\<close>
  of the Python signatures is passed explicitly.
\<close>

record Alarm =
  alarms :: "(int \<times> int \<times> int) list"

definition Alarm_init :: "Alarm" where
  "Alarm_init = \<lparr>alarms = []\<rparr>"

definition add_alarm :: "Alarm \<Rightarrow> int \<Rightarrow> int \<Rightarrow> int \<Rightarrow> Alarm" where
  "add_alarm a h m s = a\<lparr>alarms := alarms a @ [(h, m, s)]\<rparr>"

definition remove_alarm :: "Alarm \<Rightarrow> int \<Rightarrow> int \<Rightarrow> int \<Rightarrow> bool \<times> Alarm" where
  "remove_alarm a h m s =
     (let alarm = (h, m, s)
      in if alarm \<in> set (alarms a)
         then (True, a\<lparr>alarms := remove1 alarm (alarms a)\<rparr>)
         else (False, a))"

definition check_alarms :: "Alarm \<Rightarrow> time \<Rightarrow> bool \<times> Alarm" where
  "check_alarms a current_time =
     (let current_hms = (hour current_time, minute current_time, second current_time)
      in (current_hms \<in> set (alarms a), a))"

section \<open>AnalogWatchWithAlarm\<close>

text \<open>
  The class inherits from \<^verbatim>\<open>AnalogWatch\<close> and from the mixin
  \<^verbatim>\<open>WatchWithAlarm\<close>, whose only field is \<^verbatim>\<open>alarm\<close>. In its method resolution
  order \<^verbatim>\<open>super().update()\<close> is \<^verbatim>\<open>AnalogWatch.update\<close>. The hook
  \<^verbatim>\<open>_trigger_alarm\<close> has the body \<^verbatim>\<open>pass\<close>.
\<close>

record AnalogWatchWithAlarm = AnalogWatch +
  alarm :: Alarm

definition AnalogWatchWithAlarm_init :: "Theme \<Rightarrow> rat \<Rightarrow> AnalogWatchWithAlarm" where
  "AnalogWatchWithAlarm_init th r =
     AnalogWatch.extend (AnalogWatch_init th r) (AnalogWatchWithAlarm.fields Alarm_init)"

definition watch_add_alarm ::
  "AnalogWatchWithAlarm \<Rightarrow> int \<Rightarrow> int \<Rightarrow> int \<Rightarrow> AnalogWatchWithAlarm" where
  "watch_add_alarm w h m s = w\<lparr>alarm := add_alarm (alarm w) h m s\<rparr>"

definition trigger_alarm :: "AnalogWatchWithAlarm \<Rightarrow> AnalogWatchWithAlarm" where
  "trigger_alarm w = w"

definition check_and_trigger_alarm ::
  "AnalogWatchWithAlarm \<Rightarrow> env \<Rightarrow> bool \<times> AnalogWatchWithAlarm \<times> env" where
  "check_and_trigger_alarm w e =
     (let (current_time, e0) = datetime_now e;
          (hit, a) = check_alarms (alarm w) current_time;
          w0 = w\<lparr>alarm := a\<rparr>
      in if hit then (True, trigger_alarm w0, emit TriggerAlarm e0)
         else (False, w0, e0))"

definition AnalogWatchWithAlarm_update ::
  "AnalogWatchWithAlarm \<Rightarrow> env \<Rightarrow> AnalogWatchWithAlarm \<times> env" where
  "AnalogWatchWithAlarm_update w e =
     (let (w1, e1) = AnalogWatch_update w e;
          (_, w2, e2) = check_and_trigger_alarm w1 e1
      in (w2, e2))"

section \<open>Properties of the alarm list\<close>

lemma count_remove1_same:
  "x \<in> set xs \<Longrightarrow> count_list (remove1 x xs) x + 1 = count_list xs x"
  by (induction xs) auto

lemma count_remove1_other:
  "y \<noteq> x \<Longrightarrow> count_list (remove1 x xs) y = count_list xs y"
  by (induction xs) auto

text \<open>
  C3 as stated fails where it says that \<open>remove_alarm\<close> removes the triple if present:
  the entries are a list, and \<^verbatim>\<open>list.remove\<close> deletes one occurrence. After
  7:00:00 has been added twice to a fresh alarm, \<open>remove_alarm 7 0 0\<close> returns True, and
  the triple is still among the entries and \<open>check_alarms\<close> at 7:00:00 is still true.
\<close>

theorem remove_alarm_leaves_copy_counterexample:
  "fst (remove_alarm (add_alarm (add_alarm Alarm_init 7 0 0) 7 0 0) 7 0 0) = True
   \<and> (7, 0, 0) \<in> set (alarms (snd (remove_alarm
         (add_alarm (add_alarm Alarm_init 7 0 0) 7 0 0) 7 0 0)))
   \<and> fst (check_alarms (snd (remove_alarm
         (add_alarm (add_alarm Alarm_init 7 0 0) 7 0 0) 7 0 0)) (hms 7 0 0)) = True"
  by (simp add: check_alarms_def add_alarm_def remove_alarm_def Alarm_init_def hms_def)

text \<open>
  C3, amended. On a fresh alarm, after \<open>add_alarm 7 0 0\<close> the check at 7:00:00 is true
  and at 7:00:01 false; the first \<open>remove_alarm 7 0 0\<close> returns True and the second
  False. In general \<open>add_alarm\<close> makes the check at the added triple true and changes no
  other check; \<open>check_alarms\<close> is true exactly when the triple of the time is among the
  entries; \<open>remove_alarm\<close> returns whether the triple was among the entries and, when it
  was, takes exactly one occurrence of it away and leaves every other triple as it was,
  so that the triple is gone afterwards exactly when it occurred once; on a miss it
  raises nothing and the object comes back as it was.
\<close>

theorem alarm_add_check_remove:
  "fst (check_alarms (add_alarm Alarm_init 7 0 0) (hms 7 0 0)) = True
   \<and> fst (check_alarms (add_alarm Alarm_init 7 0 0) (hms 7 0 1)) = False
   \<and> fst (remove_alarm (add_alarm Alarm_init 7 0 0) 7 0 0) = True
   \<and> fst (remove_alarm (snd (remove_alarm (add_alarm Alarm_init 7 0 0) 7 0 0)) 7 0 0) = False
   \<and> fst (check_alarms (add_alarm a h m s) (hms h m s)) = True
   \<and> (fst (check_alarms (add_alarm a h m s) t) \<longleftrightarrow>
        (hour t, minute t, second t) = (h, m, s) \<or> fst (check_alarms a t))
   \<and> (fst (check_alarms a t) \<longleftrightarrow> (hour t, minute t, second t) \<in> set (alarms a))
   \<and> (fst (remove_alarm a h m s) \<longleftrightarrow> (h, m, s) \<in> set (alarms a))
   \<and> ((h, m, s) \<in> set (alarms a) \<longrightarrow>
        alarms (snd (remove_alarm a h m s)) = remove1 (h, m, s) (alarms a)
        \<and> count_list (alarms (snd (remove_alarm a h m s))) (h, m, s) + 1
            = count_list (alarms a) (h, m, s)
        \<and> (\<forall>x. x \<noteq> (h, m, s) \<longrightarrow>
              count_list (alarms (snd (remove_alarm a h m s))) x = count_list (alarms a) x)
        \<and> ((h, m, s) \<notin> set (alarms (snd (remove_alarm a h m s))) \<longleftrightarrow>
             count_list (alarms a) (h, m, s) = 1))
   \<and> ((h, m, s) \<notin> set (alarms a) \<longrightarrow> remove_alarm a h m s = (False, a))"
proof -
  have scenario:
    "fst (check_alarms (add_alarm Alarm_init 7 0 0) (hms 7 0 0)) = True"
    "fst (check_alarms (add_alarm Alarm_init 7 0 0) (hms 7 0 1)) = False"
    "fst (remove_alarm (add_alarm Alarm_init 7 0 0) 7 0 0) = True"
    "fst (remove_alarm (snd (remove_alarm (add_alarm Alarm_init 7 0 0) 7 0 0)) 7 0 0) = False"
    by (simp_all add: check_alarms_def add_alarm_def remove_alarm_def Alarm_init_def hms_def)
  have add1: "fst (check_alarms (add_alarm a h m s) (hms h m s)) = True"
    by (simp add: check_alarms_def add_alarm_def hms_def)
  have add2: "fst (check_alarms (add_alarm a h m s) t) \<longleftrightarrow>
        (hour t, minute t, second t) = (h, m, s) \<or> fst (check_alarms a t)"
    by (auto simp: check_alarms_def add_alarm_def)
  have chk: "fst (check_alarms a t) \<longleftrightarrow> (hour t, minute t, second t) \<in> set (alarms a)"
    by (simp add: check_alarms_def)
  have ret: "fst (remove_alarm a h m s) \<longleftrightarrow> (h, m, s) \<in> set (alarms a)"
    by (simp add: remove_alarm_def Let_def)
  have hit: "alarms (snd (remove_alarm a h m s)) = remove1 (h, m, s) (alarms a)
        \<and> count_list (alarms (snd (remove_alarm a h m s))) (h, m, s) + 1
            = count_list (alarms a) (h, m, s)
        \<and> (\<forall>x. x \<noteq> (h, m, s) \<longrightarrow>
              count_list (alarms (snd (remove_alarm a h m s))) x = count_list (alarms a) x)
        \<and> ((h, m, s) \<notin> set (alarms (snd (remove_alarm a h m s))) \<longleftrightarrow>
             count_list (alarms a) (h, m, s) = 1)"
    if "(h, m, s) \<in> set (alarms a)"
  proof -
    have eq: "alarms (snd (remove_alarm a h m s)) = remove1 (h, m, s) (alarms a)"
      using that by (simp add: remove_alarm_def Let_def)
    have cnt: "count_list (remove1 (h, m, s) (alarms a)) (h, m, s) + 1
                 = count_list (alarms a) (h, m, s)"
      using that by (rule count_remove1_same)
    have oth: "count_list (remove1 (h, m, s) (alarms a)) x = count_list (alarms a) x"
      if "x \<noteq> (h, m, s)" for x
      using that by (rule count_remove1_other)
    have "(h, m, s) \<notin> set (remove1 (h, m, s) (alarms a)) \<longleftrightarrow>
            count_list (remove1 (h, m, s) (alarms a)) (h, m, s) = 0"
      by (rule count_list_0_iff [symmetric])
    also have "\<dots> \<longleftrightarrow> count_list (alarms a) (h, m, s) = 1"
      using cnt by linarith
    finally have gone: "(h, m, s) \<notin> set (remove1 (h, m, s) (alarms a)) \<longleftrightarrow>
            count_list (alarms a) (h, m, s) = 1" .
    show ?thesis using cnt oth gone by (simp only: eq) blast
  qed
  have miss: "remove_alarm a h m s = (False, a)" if "(h, m, s) \<notin> set (alarms a)"
    using that by (simp add: remove_alarm_def Let_def)
  show ?thesis using scenario add1 add2 chk ret hit miss by blast
qed

theorem alarm_add_check_remove_witness:
  "(7, 30, 0) \<in> set (alarms \<lparr>alarms = [(6, 0, 0), (7, 30, 0)]\<rparr>)
   \<and> count_list (alarms \<lparr>alarms = [(6, 0, 0), (7, 30, 0)]\<rparr>) (7, 30, 0) = 1
   \<and> (8, 0, 0) \<notin> set (alarms \<lparr>alarms = [(6, 0, 0), (7, 30, 0)]\<rparr>)
   \<and> remove_alarm \<lparr>alarms = [(6, 0, 0), (7, 30, 0)]\<rparr> 7 30 0
       = (True, \<lparr>alarms = [(6, 0, 0)]\<rparr>)
   \<and> (7, 30, 0) \<notin> set (alarms (snd (remove_alarm \<lparr>alarms = [(6, 0, 0), (7, 30, 0)]\<rparr> 7 30 0)))
   \<and> count_list (alarms (snd (remove_alarm \<lparr>alarms = [(6, 0, 0), (7, 30, 0)]\<rparr> 7 30 0)))
        (6, 0, 0) = 1
   \<and> remove_alarm \<lparr>alarms = [(6, 0, 0), (7, 30, 0)]\<rparr> 8 0 0
       = (False, \<lparr>alarms = [(6, 0, 0), (7, 30, 0)]\<rparr>)
   \<and> fst (check_alarms (add_alarm \<lparr>alarms = [(6, 0, 0), (7, 30, 0)]\<rparr> 8 0 0) (hms 8 0 0)) = True"
  using alarm_add_check_remove [of "\<lparr>alarms = [(6, 0, 0), (7, 30, 0)]\<rparr>" 7 30 0 "hms 7 30 0"]
    alarm_add_check_remove [of "\<lparr>alarms = [(6, 0, 0), (7, 30, 0)]\<rparr>" 8 0 0 "hms 8 0 0"]
  by (simp add: remove_alarm_def Let_def)

text \<open>
  C10. \<open>check_alarms\<close> returns the alarm object as it received it, and so does a
  \<open>remove_alarm\<close> that returns False: the entries are the same list as before.
\<close>

theorem alarm_frame:
  "snd (check_alarms a t) = a
   \<and> alarms (snd (check_alarms a t)) = alarms a
   \<and> (fst (remove_alarm a h m s) = False \<longrightarrow>
        snd (remove_alarm a h m s) = a \<and> alarms (snd (remove_alarm a h m s)) = alarms a)"
  by (simp add: check_alarms_def remove_alarm_def Let_def)

theorem alarm_frame_witness:
  "fst (remove_alarm \<lparr>alarms = [(6, 0, 0)]\<rparr> 7 0 0) = False
   \<and> snd (remove_alarm \<lparr>alarms = [(6, 0, 0)]\<rparr> 7 0 0) = \<lparr>alarms = [(6, 0, 0)]\<rparr>
   \<and> snd (check_alarms \<lparr>alarms = [(6, 0, 0)]\<rparr> (hms 6 0 0)) = \<lparr>alarms = [(6, 0, 0)]\<rparr>"
  using alarm_frame [of "\<lparr>alarms = [(6, 0, 0)]\<rparr>" "hms 6 0 0" 7 0 0]
  by (simp add: remove_alarm_def Let_def)

text \<open>
  C7 as stated fails: the entries are a list, and \<open>add_alarm\<close> appends without looking.
  With 7:00:00 present, adding it again gives a list with two copies; one
  \<open>remove_alarm\<close> leaves the triple present, and the second \<open>remove_alarm\<close> returns
  True; on the object before the duplicate add it returns False.
\<close>

theorem duplicate_alarm_counterexample:
  "alarms (add_alarm \<lparr>alarms = [(7, 0, 0)]\<rparr> 7 0 0) = [(7, 0, 0), (7, 0, 0)]
   \<and> add_alarm \<lparr>alarms = [(7, 0, 0)]\<rparr> 7 0 0 \<noteq> \<lparr>alarms = [(7, 0, 0)]\<rparr>
   \<and> (7, 0, 0) \<in> set (alarms (snd (remove_alarm (add_alarm \<lparr>alarms = [(7, 0, 0)]\<rparr> 7 0 0) 7 0 0)))
   \<and> fst (remove_alarm (snd (remove_alarm (add_alarm \<lparr>alarms = [(7, 0, 0)]\<rparr> 7 0 0) 7 0 0)) 7 0 0) = True
   \<and> fst (remove_alarm (snd (remove_alarm \<lparr>alarms = [(7, 0, 0)]\<rparr> 7 0 0)) 7 0 0) = False"
  by (simp add: add_alarm_def remove_alarm_def Let_def)

text \<open>
  C7, amended. Adding a triple that is already present leaves the result of every
  \<open>check_alarms\<close> as it was, and the triple then occurs once more in the list.
  \<open>remove_alarm\<close> succeeds exactly when the triple occurs at least once and takes one
  occurrence away: after the duplicate add one \<open>remove_alarm\<close> returns True and leaves
  as many occurrences as before the add, so the triple is still present and the next
  \<open>remove_alarm\<close> returns True as well.
\<close>

theorem duplicate_alarm_kept:
  assumes "(h, m, s) \<in> set (alarms a)"
  shows "fst (check_alarms (add_alarm a h m s) t) = fst (check_alarms a t)
   \<and> count_list (alarms (add_alarm a h m s)) (h, m, s) = count_list (alarms a) (h, m, s) + 1
   \<and> (fst (remove_alarm a h m s) \<longleftrightarrow> 0 < count_list (alarms a) (h, m, s))
   \<and> fst (remove_alarm (add_alarm a h m s) h m s) = True
   \<and> count_list (alarms (snd (remove_alarm (add_alarm a h m s) h m s))) (h, m, s)
        = count_list (alarms a) (h, m, s)
   \<and> (h, m, s) \<in> set (alarms (snd (remove_alarm (add_alarm a h m s) h m s)))
   \<and> fst (remove_alarm (snd (remove_alarm (add_alarm a h m s) h m s)) h m s) = True"
proof -
  let ?x = "(h, m, s)"
  let ?a1 = "add_alarm a h m s"
  have chk: "fst (check_alarms ?a1 t) = fst (check_alarms a t)"
    using assms by (auto simp: check_alarms_def add_alarm_def)
  have cnt: "count_list (alarms ?a1) ?x = count_list (alarms a) ?x + 1"
    by (simp add: add_alarm_def)
  have pos: "fst (remove_alarm a h m s) \<longleftrightarrow> 0 < count_list (alarms a) ?x"
    using count_list_0_iff [of "alarms a" ?x] by (auto simp: remove_alarm_def Let_def)
  have r1: "remove_alarm ?a1 h m s = (True, a\<lparr>alarms := remove1 ?x (alarms a) @ [?x]\<rparr>)"
    using assms by (simp add: remove_alarm_def Let_def add_alarm_def remove1_append)
  have cnt2: "count_list (remove1 ?x (alarms a) @ [?x]) ?x = count_list (alarms a) ?x"
    using count_remove1_same [OF assms] by simp
  have r2: "fst (remove_alarm (a\<lparr>alarms := remove1 ?x (alarms a) @ [?x]\<rparr>) h m s) = True"
    by (simp add: remove_alarm_def Let_def)
  show ?thesis using chk cnt pos r1 cnt2 r2 by simp
qed

theorem duplicate_alarm_kept_witness:
  "(7, 0, 0) \<in> set (alarms \<lparr>alarms = [(7, 0, 0)]\<rparr>)
   \<and> count_list (alarms (add_alarm \<lparr>alarms = [(7, 0, 0)]\<rparr> 7 0 0)) (7, 0, 0) = 2
   \<and> fst (remove_alarm (snd (remove_alarm (add_alarm \<lparr>alarms = [(7, 0, 0)]\<rparr> 7 0 0) 7 0 0)) 7 0 0) = True"
  using duplicate_alarm_kept [of 7 0 0 "\<lparr>alarms = [(7, 0, 0)]\<rparr>" "hms 7 0 0"]
  by simp

section \<open>Rounding to a double\<close>

lemma bitlen_bounds:
  "0 < n \<Longrightarrow> 2 ^ (bitlen n - 1) \<le> n \<and> n < 2 ^ bitlen n"
proof (induction n rule: bitlen.induct)
  case (1 n)
  have unf: "bitlen n = Suc (bitlen (n div 2))"
    using "1.prems" by (subst bitlen.simps) simp
  show ?case
  proof (cases "n div 2 = 0")
    case True
    then have "n = 1" using "1.prems" by (simp add: div_eq_0_iff) 
    moreover have "bitlen 0 = 0" by (simp add: bitlen.simps)
    ultimately show ?thesis using unf by simp
  next
    case False
    then have pos: "0 < n div 2" by simp
    have ih: "2 ^ (bitlen (n div 2) - 1) \<le> n div 2 \<and> n div 2 < 2 ^ bitlen (n div 2)"
      using "1.IH" "1.prems" pos by simp
    have bpos: "0 < bitlen (n div 2)"
      using pos by (subst bitlen.simps) simp
    then obtain b where b: "bitlen (n div 2) = Suc b" by (cases "bitlen (n div 2)") auto
    have lo: "(2::nat) ^ Suc b \<le> n"
    proof -
      have "(2::nat) ^ b \<le> n div 2" using ih b by simp
      then have "2 * 2 ^ b \<le> 2 * (n div 2)" by simp
      also have "\<dots> \<le> n" by simp
      finally show ?thesis by simp
    qed
    have hi: "n < 2 ^ Suc (Suc b)"
    proof -
      have "n div 2 < 2 ^ Suc b" using ih b by simp
      then have "Suc (n div 2) \<le> 2 ^ Suc b" by simp
      then have "2 * Suc (n div 2) \<le> 2 * 2 ^ Suc b" by simp
      moreover have "n < 2 * Suc (n div 2)" by simp
      ultimately show ?thesis by simp
    qed
    show ?thesis using lo hi unf b by simp
  qed
qed

lemma exponent_bounds:
  assumes "0 < x"
  shows "2 powi exponent x \<le> x" "x < 2 powi (exponent x + 1)"
proof -
  have "2 powi exponent x \<le> x \<and> x < 2 powi (exponent x + 1)"
  proof (cases "1 \<le> x")
    case True
    let ?n = "nat \<lfloor>x\<rfloor>"
    have f1: "1 \<le> \<lfloor>x\<rfloor>" using True by (simp add: le_floor_iff)
    then have npos: "0 < ?n" by simp
    have e: "exponent x = int (bitlen ?n) - 1" using True by (simp add: exponent_def)
    from bitlen_bounds [OF npos]
    have lo: "2 ^ (bitlen ?n - 1) \<le> ?n" and hi: "?n < 2 ^ bitlen ?n" by blast+
    have bpos: "0 < bitlen ?n" using npos by (subst bitlen.simps) simp
    have e1: "exponent x = int (bitlen ?n - 1)" using e bpos by simp
    have e2: "exponent x + 1 = int (bitlen ?n)" using e by simp
    have "(2::rat) ^ (bitlen ?n - 1) \<le> of_nat ?n"
      using lo by (metis of_nat_le_iff of_nat_numeral of_nat_power)
    also have "(of_nat ?n :: rat) = of_int \<lfloor>x\<rfloor>" using f1 by simp
    also have "\<dots> \<le> x" by simp
    finally have A: "2 powi exponent x \<le> x" by (simp only: e1 power_int_of_nat)
    have "Suc ?n \<le> 2 ^ bitlen ?n" using hi by (rule Suc_leI)
    then have "(of_nat (Suc ?n) :: rat) \<le> 2 ^ bitlen ?n"
      by (metis of_nat_le_iff of_nat_numeral of_nat_power)
    moreover have "(of_nat (Suc ?n) :: rat) = of_int \<lfloor>x\<rfloor> + 1" using f1 by simp
    moreover have "x < of_int \<lfloor>x\<rfloor> + 1" by linarith
    ultimately have "x < 2 ^ bitlen ?n" by linarith
    then have B: "x < 2 powi (exponent x + 1)" by (simp only: e2 power_int_of_nat)
    show ?thesis using A B by simp
  next
    case False
    let ?y = "1 / x"
    let ?c = "\<lceil>?y\<rceil>"
    let ?n = "nat (?c - 1)"
    have y1: "1 < ?y" using False assms by simp
    then have c2: "2 \<le> ?c" by (simp add: le_ceiling_iff) 
    then have npos: "0 < ?n" by simp
    have e: "exponent x = - int (bitlen ?n)" using False by (simp add: exponent_def)
    from bitlen_bounds [OF npos]
    have lo: "2 ^ (bitlen ?n - 1) \<le> ?n" and hi: "?n < 2 ^ bitlen ?n" by blast+
    have bpos: "0 < bitlen ?n" using npos by (subst bitlen.simps) simp
    have "0 \<le> ?c - 1" using c2 by linarith
    then have "(of_nat ?n :: rat) = of_int (?c - 1)" by (rule of_nat_nat)
    then have ncast: "(of_nat ?n :: rat) = of_int ?c - 1" by (simp only: of_int_diff of_int_1)
    have "Suc ?n \<le> 2 ^ bitlen ?n" using hi by (rule Suc_leI)
    then have "(of_nat (Suc ?n) :: rat) \<le> 2 ^ bitlen ?n"
      by (metis of_nat_le_iff of_nat_numeral of_nat_power)
    then have "(of_int ?c :: rat) \<le> 2 ^ bitlen ?n" using ncast by simp
    moreover have "?y \<le> of_int ?c" by simp
    ultimately have yle: "?y \<le> 2 ^ bitlen ?n" by linarith
    have p: "(0::rat) < 2 ^ bitlen ?n" by simp
    have "1 \<le> 2 ^ bitlen ?n * x"
      using yle assms by (simp add: field_simps)
    then have "1 / 2 ^ bitlen ?n \<le> x"
      using p by (simp add: field_simps)
    then have A: "2 powi exponent x \<le> x"
      by (simp add: e power_int_minus_divide)
    have "(2::rat) ^ (bitlen ?n - 1) \<le> of_nat ?n"
      using lo by (metis of_nat_le_iff of_nat_numeral of_nat_power)
    then have "(2::rat) ^ (bitlen ?n - 1) \<le> of_int ?c - 1" using ncast by simp
    moreover have "of_int ?c - 1 < ?y" by linarith
    ultimately have ygt: "2 ^ (bitlen ?n - 1) < ?y" by linarith
    have "2 ^ (bitlen ?n - 1) * x < 1"
      using ygt assms by (simp add: field_simps)
    then have "x < 1 / 2 ^ (bitlen ?n - 1)"
      by (simp add: field_simps)
    moreover have "exponent x + 1 = - int (bitlen ?n - 1)" using e bpos by simp
    ultimately have B: "x < 2 powi (exponent x + 1)"
      by (simp add: power_int_minus_divide)
    show ?thesis using A B by simp
  qed
  then show "2 powi exponent x \<le> x" "x < 2 powi (exponent x + 1)" by simp_all
qed

lemma round_half_even_err: "\<bar>of_int (round_half_even y) - y\<bar> \<le> 1 / 2"
proof -
  have "of_int \<lfloor>y\<rfloor> \<le> y" "y < of_int \<lfloor>y\<rfloor> + 1" by linarith+
  then show ?thesis
    by (auto simp: round_half_even_def Let_def abs_le_iff)
qed

lemma round_half_even_int: "round_half_even (of_int k) = k"
  by (simp add: round_half_even_def)

lemma round_half_even_nonneg: "0 \<le> y \<Longrightarrow> 0 \<le> round_half_even y"
  by (auto simp: round_half_even_def Let_def)

lemma to_float_nonneg: "0 \<le> x \<Longrightarrow> 0 \<le> to_float x"
proof -
  assume a: "0 \<le> x"
  have u: "(0::rat) < 2 powi k" for k by (simp add: zero_less_power_int)
  show ?thesis
  proof (cases "x = 0")
    case True then show ?thesis by (simp add: to_float_def)
  next
    case False
    have "0 \<le> x / 2 powi (exponent \<bar>x\<bar> - 52)" using a u by simp
    then have "0 \<le> round_half_even (x / 2 powi (exponent \<bar>x\<bar> - 52))"
      by (rule round_half_even_nonneg)
    then show ?thesis using False u by (simp add: to_float_def Let_def)
  qed
qed

lemma to_float_err:
  assumes "0 \<le> x"
  shows "\<bar>to_float x - x\<bar> \<le> x / 2 ^ 53"
proof (cases "x = 0")
  case True then show ?thesis by (simp add: to_float_def)
next
  case False
  then have pos: "0 < x" using assms by simp
  let ?e = "exponent x"
  let ?u = "(2::rat) powi (?e - 52)"
  have u: "0 < ?u" by (simp add: zero_less_power_int)
  have flx: "to_float x = of_int (round_half_even (x / ?u)) * ?u"
    using False pos by (simp add: to_float_def Let_def)
  have "to_float x - x = (of_int (round_half_even (x / ?u)) - x / ?u) * ?u"
    using u by (simp add: flx field_simps)
  then have "\<bar>to_float x - x\<bar> = \<bar>of_int (round_half_even (x / ?u)) - x / ?u\<bar> * ?u"
    using u by (simp add: abs_mult)
  also have "\<dots> \<le> (1 / 2) * ?u"
    using round_half_even_err [of "x / ?u"] u by (intro mult_right_mono) simp_all
  finally have step: "\<bar>to_float x - x\<bar> \<le> (1 / 2) * ?u" .
  have ue: "?u = 2 powi ?e / 2 ^ 52"
    by (simp add: power_int_diff)
  have "(1 / 2) * ?u = 2 powi ?e / 2 ^ 53"
    by (simp only: ue) simp
  also have "\<dots> \<le> x / 2 ^ 53"
    using exponent_bounds(1) [OF pos] by (simp add: divide_right_mono)
  finally show ?thesis using step by linarith
qed

lemma to_float_one_tenth: "to_float (1 / 10) = 3602879701896397 / 36028797018963968"
  by code_simp

lemma three_tenths: "float_mul (float_of_int 3) (to_float (1 / 10))
    = 1351079888211149 / 4503599627370496"
  by code_simp

lemma to_float_err_num:
  assumes "0 \<le> x"
  shows "\<bar>to_float x - x\<bar> \<le> x / 9007199254740992"
  using to_float_err [OF assms] by simp

lemma to_float_half:
  assumes "0 \<le> n" "n < 2 ^ 53"
  shows "to_float (of_int n / 2) = of_int n / 2"
proof (cases "n = 0")
  case True then show ?thesis by (simp add: to_float_def)
next
  case False
  let ?x = "of_int n / 2 :: rat"
  have pos: "0 < ?x" using assms False by simp
  let ?e = "exponent ?x"
  let ?u = "(2::rat) powi (?e - 52)"
  have "(of_int n :: rat) < of_int (2 ^ 53)" using assms(2) by (simp only: of_int_less_iff)
  then have "?x < 2 ^ 52" by simp
  then have "2 powi ?e < (2::rat) powi (52::int)"
    using exponent_bounds(1) [OF pos] by simp
  then have elt: "?e < 52"
    by (rule power_int_le_imp_less_exp [of 2 ?e 52, rotated]) simp_all
  define j where "j = nat (51 - ?e)"
  have j: "52 - ?e = int (Suc j)" using elt by (simp add: j_def)
  have "1 / ?u = 2 powi (52 - ?e)"
    by (simp add: power_int_minus_divide [symmetric])
  also have "\<dots> = 2 powi int (Suc j)" by (simp only: j)
  also have "\<dots> = 2 ^ Suc j" by (simp only: power_int_of_nat)
  also have "\<dots> = 2 ^ j * 2" by simp
  finally have inv: "1 / ?u = 2 ^ j * 2" .
  have "?x / ?u = ?x * (1 / ?u)" by simp
  also have "\<dots> = of_int n * 2 ^ j" by (simp only: inv)
  also have "\<dots> = of_int (n * 2 ^ j)" by simp
  finally have q: "?x / ?u = of_int (n * 2 ^ j)" .
  have "to_float ?x = of_int (round_half_even (?x / ?u)) * ?u"
    using pos by (simp add: to_float_def Let_def)
  also have "\<dots> = (?x / ?u) * ?u" by (simp only: q round_half_even_int)
  also have "\<dots> = ?x" by simp
  finally show ?thesis .
qed

lemma to_float_int:
  assumes "0 \<le> k" "k < 2 ^ 52"
  shows "to_float (of_int k) = of_int k"
  using to_float_half [of "2 * k"] assms by simp

section \<open>The displays\<close>

lemma mod360_id: "0 \<le> x \<Longrightarrow> x < 360 \<Longrightarrow> mod360 x = x"
proof -
  assume a: "0 \<le> x" "x < 360"
  have "\<lfloor>x / 360\<rfloor> = 0"
    using a by (simp add: floor_eq_iff)
  then show ?thesis by (simp add: mod360_def)
qed

lemma digit_char_0: "digit_char 0 = CHR ''0''"
  by (simp add: digit_char_def)

lemma fmt02d_two_digits:
  assumes "0 \<le> n" "n < 100"
  shows "fmt02d n = two_digits n"
proof (cases "n < 10")
  case True
  then have "dec_digits (nat n) = [digit_char (nat n)]"
    using assms by (simp add: dec_digits.simps)
  moreover have "n div 10 = 0" "n mod 10 = n" using True assms by simp_all
  ultimately show ?thesis
    using assms by (simp add: fmt02d_def two_digits_def digit_char_0)
next
  case False
  have d: "nat n div 10 < 10" using assms by linarith
  have big: "\<not> nat n < 10" using False by linarith
  have "dec_digits (nat n) = dec_digits (nat n div 10) @ [digit_char (nat n mod 10)]"
    using big by (subst dec_digits.simps) simp
  also have "dec_digits (nat n div 10) = [digit_char (nat n div 10)]"
    using d by (subst dec_digits.simps) simp
  finally have "dec_digits (nat n) = [digit_char (nat n div 10), digit_char (nat n mod 10)]"
    by simp
  moreover have "nat (n div 10) = nat n div 10" "nat (n mod 10) = nat n mod 10"
    using assms by (simp_all add: nat_div_distrib nat_mod_distrib)
  ultimately show ?thesis
    using assms by (simp add: fmt02d_def two_digits_def)
qed

lemma display_hour_code:
  assumes "0 \<le> h" "h < 24"
  shows "(if h mod 12 = 0 then 12 else h mod 12) = display_hour h"
proof -
  consider "h = 0" | "1 \<le> h \<and> h \<le> 11" | "h = 12" | "13 \<le> h \<and> h \<le> 23"
    using assms by linarith
  then show ?thesis
  proof cases
    case 4
    then have "h mod 12 = h - 12"
      by (simp add: mod_pos_pos_trivial [of "h - 12" 12] minus_mod_self2 [symmetric, of h 12] del: minus_mod_self2)
    with 4 show ?thesis by (simp add: display_hour_def)
  qed (auto simp: display_hour_def)
qed

lemma time_str_24:
  assumes "valid_time t" "tf \<noteq> HOURS_12"
  shows "time_str tf t = spec_24h t"
  using assms
  by (simp add: time_str_def spec_24h_def valid_time_def fmt02d_two_digits)

lemma time_str_12:
  assumes "valid_time t"
  shows "time_str HOURS_12 t = spec_12h t"
proof -
  have h: "0 \<le> hour t" "hour t < 24" using assms by (simp_all add: valid_time_def)
  have dh: "(if hour t mod 12 = 0 then 12 else hour t mod 12) = display_hour (hour t)"
    using h by (rule display_hour_code)
  have r: "0 \<le> display_hour (hour t)" "display_hour (hour t) < 100"
    using h by (auto simp: display_hour_def)
  show ?thesis
    using assms r dh
    by (simp add: time_str_def spec_12h_def valid_time_def fmt02d_two_digits Let_def)
qed

lemma trace_DigitalWatch_update:
  "trace (snd (DigitalWatch_update w e)) =
     trace e @ [TurtleClear,
       TurtleWrite (time_str (time_format w) (clock e (reads e))) ''center'' (''Arial'', 36, ''bold'')]"
  by (simp add: DigitalWatch_update_def datetime_now_def emit_def Let_def)

text \<open>
  C2. At every valid time \<^verbatim>\<open>DigitalWatch.update\<close> clears the display and writes
  the time: in the 24-hour format as two digits each for hour, minute and second; in the
  12-hour format with the displayed hour 12 for hour 0, the hour for 1 to 11, 12 for 12,
  the hour less 12 for 13 to 23, followed by AM when the hour is below 12 and PM
  otherwise. So (0,5,9) is written as 00:05:09 in 24h, and hours 0, 13 and 12 as
  12 AM, 01 PM and 12 PM in 12h.
\<close>

theorem digital_time_format:
  assumes "valid_time (clock e (reads e))"
  shows "(time_format w = HOURS_24 \<longrightarrow>
           trace (snd (DigitalWatch_update w e)) =
             trace e @ [TurtleClear,
               TurtleWrite (spec_24h (clock e (reads e))) ''center'' (''Arial'', 36, ''bold'')])
       \<and> (time_format w = HOURS_12 \<longrightarrow>
           trace (snd (DigitalWatch_update w e)) =
             trace e @ [TurtleClear,
               TurtleWrite (spec_12h (clock e (reads e))) ''center'' (''Arial'', 36, ''bold'')])"
proof -
  have neq: "HOURS_24 \<noteq> HOURS_12" by (simp add: HOURS_24_def HOURS_12_def)
  show ?thesis
    using assms neq
    by (simp add: trace_DigitalWatch_update time_str_24 time_str_12)
qed


theorem digital_time_format_witness:
  "valid_time (hms 0 5 9) \<and> valid_time (hms 13 5 9) \<and> valid_time (hms 12 5 9)
   \<and> trace (snd (DigitalWatch_update (DigitalWatch_init LightTheme HOURS_24)
          \<lparr>clock = \<lambda>_. hms 0 5 9, reads = 0, trace = []\<rparr>))
       = [TurtleClear, TurtleWrite ''00:05:09'' ''center'' (''Arial'', 36, ''bold'')]
   \<and> trace (snd (DigitalWatch_update (DigitalWatch_init LightTheme HOURS_12)
          \<lparr>clock = \<lambda>_. hms 0 5 9, reads = 0, trace = []\<rparr>))
       = [TurtleClear, TurtleWrite ''12:05:09 AM'' ''center'' (''Arial'', 36, ''bold'')]
   \<and> trace (snd (DigitalWatch_update (DigitalWatch_init LightTheme HOURS_12)
          \<lparr>clock = \<lambda>_. hms 13 5 9, reads = 0, trace = []\<rparr>))
       = [TurtleClear, TurtleWrite ''01:05:09 PM'' ''center'' (''Arial'', 36, ''bold'')]
   \<and> trace (snd (DigitalWatch_update (DigitalWatch_init DarkTheme HOURS_12)
          \<lparr>clock = \<lambda>_. hms 12 5 9, reads = 0, trace = []\<rparr>))
       = [TurtleClear, TurtleWrite ''12:05:09 PM'' ''center'' (''Arial'', 36, ''bold'')]"
proof -
  have v: "valid_time (hms 0 5 9)" "valid_time (hms 13 5 9)" "valid_time (hms 12 5 9)"
    by (simp_all add: valid_time_def hms_def)
  have f: "time_format (DigitalWatch_init th tf) = tf" for th tf
    by (simp add: DigitalWatch_init_def Watch.extend_def DigitalWatch.fields_def Watch_init_def)
  have s: "spec_24h (hms 0 5 9) = ''00:05:09''" "spec_12h (hms 0 5 9) = ''12:05:09 AM''"
    "spec_12h (hms 13 5 9) = ''01:05:09 PM''" "spec_12h (hms 12 5 9) = ''12:05:09 PM''"
    by (simp_all add: spec_24h_def spec_12h_def hms_def two_digits_def display_hour_def
        digit_char_def)
  show ?thesis
    using v s
      digital_time_format [of "\<lparr>clock = \<lambda>_. hms 0 5 9, reads = 0, trace = []\<rparr>"
        "DigitalWatch_init LightTheme HOURS_24"]
      digital_time_format [of "\<lparr>clock = \<lambda>_. hms 0 5 9, reads = 0, trace = []\<rparr>"
        "DigitalWatch_init LightTheme HOURS_12"]
      digital_time_format [of "\<lparr>clock = \<lambda>_. hms 13 5 9, reads = 0, trace = []\<rparr>"
        "DigitalWatch_init LightTheme HOURS_12"]
      digital_time_format [of "\<lparr>clock = \<lambda>_. hms 12 5 9, reads = 0, trace = []\<rparr>"
        "DigitalWatch_init DarkTheme HOURS_12"]
    by (simp add: f)
qed

lemma trace_AnalogWatch_update:
  "trace (snd (AnalogWatch_update w e)) =
     trace e @ [HandUpdate HourHand (hour_angle (clock e (reads e))),
                HandUpdate MinuteHand (minute_angle (clock e (reads e))),
                HandUpdate SecondHand (second_angle (clock e (reads e)))]"
  by (simp add: AnalogWatch_update_def datetime_now_def emit_def Let_def)

lemma second_angle_range:
  assumes "valid_time t"
  shows "second_angle t = of_int (second t) * 6" "0 \<le> second_angle t" "second_angle t \<le> 354"
proof -
  have s: "0 \<le> second t" "second t \<le> 59" using assms by (simp_all add: valid_time_def)
  show "second_angle t = of_int (second t) * 6" by (simp add: second_angle_def)
  have "0 \<le> second t * 6" "second t * 6 \<le> 354" using s by simp_all
  then have "(0::rat) \<le> of_int (second t * 6)" "(of_int (second t * 6) :: rat) \<le> of_int 354"
    by (simp_all only: of_int_0_le_iff of_int_le_iff)
  then show "0 \<le> second_angle t" "second_angle t \<le> 354"
    by (simp_all add: second_angle_def)
qed

lemma float_of_int_small:
  assumes "0 \<le> k" "k \<le> 1000"
  shows "float_of_int k = of_int k"
  unfolding float_of_int_def using assms by (intro to_float_int) simp_all

lemma hour_angle_exact:
  assumes "valid_time t"
  shows "hour_angle t = of_int (hour t mod 12) * 30 + of_int (minute t) * (1 / 2)"
proof -
  have m: "0 \<le> minute t" "minute t \<le> 59" using assms by (simp_all add: valid_time_def)
  have h: "0 \<le> hour t mod 12" "hour t mod 12 \<le> 11"
    using pos_mod_bound [of 12 "hour t"] by simp_all
  have half: "to_float (1 / 2) = 1 / 2"
    using to_float_half [of 1] by simp
  have fm: "float_of_int (minute t) = of_int (minute t)"
    using m by (intro float_of_int_small) simp_all
  have fh: "float_of_int ((hour t mod 12) * 30) = of_int ((hour t mod 12) * 30)"
    using h by (intro float_of_int_small) simp_all
  have prod: "float_mul (of_int (minute t)) (1 / 2) = of_int (minute t) / 2"
    using to_float_half [of "minute t"] m by (simp add: float_mul_def)
  have n: "0 \<le> (hour t mod 12) * 60 + minute t" "(hour t mod 12) * 60 + minute t < 2 ^ 53"
    using h m by simp_all
  have eq: "of_int ((hour t mod 12) * 30) + of_int (minute t) / 2
               = (of_int ((hour t mod 12) * 60 + minute t) / 2 :: rat)"
    by (simp add: add_divide_distrib)
  have "float_add (of_int ((hour t mod 12) * 30)) (of_int (minute t) / 2)
          = to_float (of_int ((hour t mod 12) * 60 + minute t) / 2)"
    by (simp only: float_add_def eq)
  also have "\<dots> = of_int ((hour t mod 12) * 60 + minute t) / 2"
    using n by (rule to_float_half)
  also have "\<dots> = of_int (hour t mod 12) * 30 + of_int (minute t) * (1 / 2)"
    by (simp add: add_divide_distrib)
  finally show ?thesis
    by (simp only: hour_angle_def half fm fh prod)
qed

lemma hour_angle_range:
  assumes "valid_time t"
  shows "0 \<le> hour_angle t" "hour_angle t < 360"
proof -
  have m: "0 \<le> minute t" "minute t \<le> 59" using assms by (simp_all add: valid_time_def)
  have h: "0 \<le> hour t mod 12" "hour t mod 12 \<le> 11"
    using pos_mod_bound [of 12 "hour t"] by simp_all
  have a: "(0::rat) \<le> of_int (minute t)" "(of_int (minute t) :: rat) \<le> 59"
    using m by simp_all
  have b: "(0::rat) \<le> of_int (hour t mod 12)" "(of_int (hour t mod 12) :: rat) \<le> 11"
    using h by (simp_all only: of_int_0_le_iff of_int_le_numeral_iff)
  show "0 \<le> hour_angle t" "hour_angle t < 360"
    using a b by (simp_all add: hour_angle_exact [OF assms])
qed

lemma minute_angle_bounds:
  assumes "valid_time t"
  shows "0 \<le> minute_angle t" "minute_angle t < 360"
    "\<bar>minute_angle t - (of_int (minute t) * 6 + of_int (second t) * (1 / 10))\<bar> \<le> 1 / 10 ^ 12"
proof -
  have m: "0 \<le> minute t" "minute t \<le> 59" and s: "0 \<le> second t" "second t \<le> 59"
    using assms by (simp_all add: valid_time_def)
  define M :: rat where "M = of_int (minute t) * 6"
  define S :: rat where "S = of_int (second t)"
  define c where "c = to_float (1 / 10)"
  define y where "y = S * c"
  define r where "r = to_float y"
  define v where "v = to_float (M + r)"
  have Mb: "0 \<le> M" "M \<le> 354" using m by (simp_all add: M_def)
  have Sb: "0 \<le> S" "S \<le> 59" using s by (simp_all add: S_def)
  have fm: "float_of_int (minute t * 6) = M"
    using m by (simp add: M_def float_of_int_small)
  have fs: "float_of_int (second t) = S"
    using s by (simp add: S_def float_of_int_small)
  have v: "minute_angle t = v"
    by (simp only: minute_angle_def fm fs float_add_def float_mul_def v_def r_def y_def c_def)
  have cb: "\<bar>c - 1 / 10\<bar> \<le> 1 / 10 / 9007199254740992"
    unfolding c_def by (rule to_float_err_num) simp
  have c0: "0 \<le> c" unfolding c_def by (rule to_float_nonneg) simp
  have y0: "0 \<le> y" using Sb c0 by (simp add: y_def)
  have "y - S / 10 = S * (c - 1 / 10)" by (simp add: y_def algebra_simps)
  then have "\<bar>y - S / 10\<bar> = S * \<bar>c - 1 / 10\<bar>"
    using Sb by (simp add: abs_mult)
  also have "\<dots> \<le> 59 * (1 / 10 / 9007199254740992)"
    using Sb cb by (intro mult_mono) simp_all
  finally have yb: "\<bar>y - S / 10\<bar> \<le> 59 / 90071992547409920" by simp
  have y6: "y \<le> 6" using yb Sb by linarith
  have rb: "\<bar>r - y\<bar> \<le> y / 9007199254740992"
    unfolding r_def using y0 by (rule to_float_err_num)
  have r0: "0 \<le> r" unfolding r_def using y0 by (rule to_float_nonneg)
  have sum0: "0 \<le> M + r" using Mb r0 by simp
  have vb: "\<bar>v - (M + r)\<bar> \<le> (M + r) / 9007199254740992"
    unfolding v_def using sum0 by (rule to_float_err_num)
  have v0: "0 \<le> v" unfolding v_def using sum0 by (rule to_float_nonneg)
  have "y / 9007199254740992 \<le> 6 / 9007199254740992"
    using y6 by (intro divide_right_mono) simp_all
  then have rb': "\<bar>r - y\<bar> \<le> 6 / 9007199254740992"
    using rb by (rule order_trans [rotated])
  have "r - y \<le> \<bar>r - y\<bar>" by (rule abs_ge_self)
  then have "r - y \<le> 6 / 9007199254740992" using rb' by (rule order_trans)
  moreover have "(6::rat) / 9007199254740992 \<le> 1" by simp
  ultimately have r7: "r \<le> 7" using y6 by linarith
  have "(M + r) / 9007199254740992 \<le> 361 / 9007199254740992"
    using Mb r7 by (intro divide_right_mono) simp_all
  then have vb': "\<bar>v - (M + r)\<bar> \<le> 361 / 9007199254740992"
    using vb by (rule order_trans [rotated])
  have split: "v - (M + S / 10) = (v - (M + r)) + (r - y) + (y - S / 10)" by simp
  have "\<bar>v - (M + S / 10)\<bar> \<le> \<bar>v - (M + r)\<bar> + \<bar>r - y\<bar> + \<bar>y - S / 10\<bar>"
    unfolding split by (intro order_trans [OF abs_triangle_ineq] add_mono order_refl)
  also have "\<dots> \<le> 361 / 9007199254740992 + 6 / 9007199254740992 + 59 / 90071992547409920"
    by (intro add_mono vb' rb' yb)
  also have "\<dots> \<le> 1 / 1000000000000" by simp
  finally have err: "\<bar>v - (M + S / 10)\<bar> \<le> 1 / 1000000000000" .
  have lt: "v < 360"
    using err Mb Sb by linarith
  have p: "(1::rat) / 10 ^ 12 = 1 / 1000000000000" by simp
  show "0 \<le> minute_angle t" "minute_angle t < 360"
    "\<bar>minute_angle t - (of_int (minute t) * 6 + of_int (second t) * (1 / 10))\<bar> \<le> 1 / 10 ^ 12"
    using v0 lt err by (simp_all only: v M_def S_def p)
qed

text \<open>
  C1. At every valid time \<^verbatim>\<open>AnalogWatch.update\<close> makes exactly three hand
  updates, in the order hour, minute, second. The hour angle is
  \<open>((hour mod 12) * 30 + minute * 0.5) mod 360\<close>, computed without rounding. The minute
  angle is \<open>(minute * 6 + second * 0.1) mod 360\<close> in double arithmetic, which is within
  \<open>1 / 10 ^ 12\<close> of the exact value of that formula. The second angle is
  \<open>second * 6\<close>, an integer between 0 and 354. The sums are in \<open>[0, 360)\<close> as the
  code computes them, so that the reduction modulo 360 changes nothing.
\<close>

theorem analog_hand_angles:
  assumes "valid_time (clock e (reads e))"
  shows "trace (snd (AnalogWatch_update w e)) =
     trace e @
       [HandUpdate HourHand
          (mod360 (of_int (hour (clock e (reads e)) mod 12) * 30
                   + of_int (minute (clock e (reads e))) * (1 / 2))),
        HandUpdate MinuteHand
          (mod360 (float_add (float_of_int (minute (clock e (reads e)) * 6))
                     (float_mul (float_of_int (second (clock e (reads e))))
                        (to_float (1 / 10))))),
        HandUpdate SecondHand (of_int (second (clock e (reads e))) * 6)]
   \<and> 0 \<le> second_angle (clock e (reads e)) \<and> second_angle (clock e (reads e)) \<le> 354
   \<and> \<bar>minute_angle (clock e (reads e))
        - mod360 (of_int (minute (clock e (reads e))) * 6
                  + of_int (second (clock e (reads e))) * (1 / 10))\<bar> \<le> 1 / 10 ^ 12"
proof -
  let ?t = "clock e (reads e)"
  have h: "mod360 (hour_angle ?t) = hour_angle ?t"
    using hour_angle_range [OF assms] by (rule mod360_id)
  have m: "mod360 (minute_angle ?t) = minute_angle ?t"
    using minute_angle_bounds(1,2) [OF assms] by (rule mod360_id)
  have h': "hour_angle ?t = of_int (hour ?t mod 12) * 30 + of_int (minute ?t) * (1 / 2)"
    using assms by (rule hour_angle_exact)
  have m': "minute_angle ?t =
      float_add (float_of_int (minute ?t * 6))
        (float_mul (float_of_int (second ?t)) (to_float (1 / 10)))"
    by (simp only: minute_angle_def)
  have mt: "0 \<le> minute ?t" "minute ?t \<le> 59" and st: "0 \<le> second ?t" "second ?t \<le> 59"
    using assms by (simp_all add: valid_time_def)
  have a: "(0::rat) \<le> of_int (minute ?t)" "(of_int (minute ?t) :: rat) \<le> 59"
    using mt by simp_all
  have b: "(0::rat) \<le> of_int (second ?t)" "(of_int (second ?t) :: rat) \<le> 59"
    using st by simp_all
  have x: "mod360 (of_int (minute ?t) * 6 + of_int (second ?t) * (1 / 10))
             = of_int (minute ?t) * 6 + of_int (second ?t) * (1 / 10)"
    using a b by (intro mod360_id) simp_all
  have tr: "trace (snd (AnalogWatch_update w e)) =
     trace e @ [HandUpdate HourHand (mod360 (hour_angle ?t)),
                HandUpdate MinuteHand (mod360 (minute_angle ?t)),
                HandUpdate SecondHand (of_int (second ?t) * 6)]"
    by (simp only: trace_AnalogWatch_update h m second_angle_range(1) [OF assms])
  show ?thesis
    using tr second_angle_range(2,3) [OF assms] minute_angle_bounds(3) [OF assms]
    by (simp only: x) (simp only: h' m' simp_thms)
qed

theorem analog_hand_angles_witness:
  "valid_time (hms 7 30 3)
   \<and> trace (snd (AnalogWatch_update (AnalogWatch_init LightTheme 200)
         \<lparr>clock = \<lambda>_. hms 7 30 3, reads = 0, trace = []\<rparr>))
       = [HandUpdate HourHand 225,
          HandUpdate MinuteHand (3171871143808205 / 17592186044416),
          HandUpdate SecondHand 18]
   \<and> \<bar>minute_angle (hms 7 30 3) - 1803 / 10\<bar> \<le> 1 / 10 ^ 12"
proof -
  have v: "valid_time (hms 7 30 3)" by (simp add: valid_time_def hms_def)
  have f: "minute_angle (hms 7 30 3) = 3171871143808205 / 17592186044416"
    by code_simp
  have m: "mod360 225 = 225"
    "mod360 (3171871143808205 / 17592186044416) = 3171871143808205 / 17592186044416"
    "mod360 (1803 / 10) = 1803 / 10"
    by (rule mod360_id; simp)+
  have t: "clock \<lparr>clock = \<lambda>_. hms 7 30 3, reads = 0, trace = []\<rparr>
             (reads \<lparr>clock = \<lambda>_. hms 7 30 3, reads = 0, trace = []\<rparr>) = hms 7 30 3"
    "trace \<lparr>clock = \<lambda>_. hms 7 30 3, reads = 0, trace = []\<rparr> = []"
    by simp_all
  have g: "of_int (hour (hms 7 30 3) mod 12) * 30 + of_int (minute (hms 7 30 3)) * (1 / 2)
             = (225 :: rat)"
    "of_int (minute (hms 7 30 3)) * 6 + of_int (second (hms 7 30 3)) * (1 / 10)
             = (1803 / 10 :: rat)"
    "of_int (second (hms 7 30 3)) * 6 = (18 :: rat)"
    by (simp_all add: hms_def)
  from analog_hand_angles [of "\<lparr>clock = \<lambda>_. hms 7 30 3, reads = 0, trace = []\<rparr>"
        "AnalogWatch_init LightTheme 200", unfolded t, OF v]
  have "trace (snd (AnalogWatch_update (AnalogWatch_init LightTheme 200)
         \<lparr>clock = \<lambda>_. hms 7 30 3, reads = 0, trace = []\<rparr>))
       = [HandUpdate HourHand 225,
          HandUpdate MinuteHand (3171871143808205 / 17592186044416),
          HandUpdate SecondHand 18]
     \<and> \<bar>minute_angle (hms 7 30 3) - 1803 / 10\<bar> \<le> 1 / 10 ^ 12"
    by (simp only: g m minute_angle_def [symmetric] f append_Nil simp_thms)
  then show ?thesis using v by simp
qed

section \<open>Stub methods\<close>

text \<open>
  C5. \<^verbatim>\<open>ClockFace.setup\<close> has the docstring "Set up the clock face with all 12
  digits" and the body \<^verbatim>\<open>pass\<close>: after it the digits of a fresh face of radius
  200 are still the empty list.
\<close>

theorem clockface_setup_no_digits:
  "digits (ClockFace_setup (ClockFace_init 200 (0, 0))) = []
   \<and> length (digits (ClockFace_setup (ClockFace_init 200 (0, 0)))) \<noteq> 12"
  by (simp add: ClockFace_setup_def ClockFace_init_def)

text \<open>
  C6. \<^verbatim>\<open>Hand.update\<close> has the docstring "Update the hand's position to the new
  angle" and the body \<^verbatim>\<open>pass\<close>: after \<open>update 90\<close> the angle of a fresh hand is
  still 0.
\<close>

theorem hand_update_keeps_angle:
  "angle (Hand_update (Hand_init 100 6 ''black'' (0, 0)) 90) = 0
   \<and> angle (Hand_update (Hand_init 100 6 ''black'' (0, 0)) 90) \<noteq> 90"
  by (simp add: Hand_update_def Hand_init_def)

section \<open>The analog watch with alarm\<close>

lemma env_AnalogWatch_update:
  "clock (snd (AnalogWatch_update w e)) = clock e"
  "reads (snd (AnalogWatch_update w e)) = Suc (reads e)"
  by (simp_all add: AnalogWatch_update_def datetime_now_def emit_def Let_def)

lemma fst_AnalogWatch_update: "fst (AnalogWatch_update w e) = w"
  by (simp add: AnalogWatch_update_def datetime_now_def Hand_update_def Let_def)

text \<open>
  C4. The calls of \<^verbatim>\<open>AnalogWatchWithAlarm.update\<close> are the calls of
  \<^verbatim>\<open>AnalogWatch.update\<close>, once and in their order (the three hand updates),
  followed by the hook \<^verbatim>\<open>_trigger_alarm\<close> exactly when \<open>check_alarms\<close> is true
  at the time read for the check, and by nothing otherwise.
  \<^verbatim>\<open>check_and_trigger_alarm\<close> returns that same boolean. The check reads the clock
  again, after the read of the visual update; the alarm entries are not changed.
\<close>

theorem update_with_alarm_composition:
  "trace (snd (AnalogWatchWithAlarm_update w e)) =
     trace (snd (AnalogWatch_update w e)) @
       (if fst (check_alarms (alarm w) (clock e (Suc (reads e)))) then [TriggerAlarm] else [])
   \<and> trace (snd (AnalogWatch_update w e)) =
     trace e @ [HandUpdate HourHand (hour_angle (clock e (reads e))),
                HandUpdate MinuteHand (minute_angle (clock e (reads e))),
                HandUpdate SecondHand (second_angle (clock e (reads e)))]
   \<and> fst (check_and_trigger_alarm (fst (AnalogWatch_update w e)) (snd (AnalogWatch_update w e)))
       = fst (check_alarms (alarm w) (clock e (Suc (reads e))))
   \<and> reads (snd (AnalogWatchWithAlarm_update w e)) = reads e + 2
   \<and> alarm (fst (AnalogWatchWithAlarm_update w e)) = alarm w"
proof -
  obtain w1 e1 where u: "AnalogWatch_update w e = (w1, e1)"
    by (cases "AnalogWatch_update w e")
  have w1: "w1 = w" using fst_AnalogWatch_update [of w e] u by simp
  have e1: "clock e1 = clock e" "reads e1 = Suc (reads e)"
    using env_AnalogWatch_update [of w e] u by simp_all
  have tr1: "trace e1 = trace e @ [HandUpdate HourHand (hour_angle (clock e (reads e))),
                HandUpdate MinuteHand (minute_angle (clock e (reads e))),
                HandUpdate SecondHand (second_angle (clock e (reads e)))]"
    using trace_AnalogWatch_update [of w e] u by simp
  show ?thesis
    using u w1 e1 tr1
    by (simp add: AnalogWatchWithAlarm_update_def check_and_trigger_alarm_def
        datetime_now_def check_alarms_def emit_def trigger_alarm_def Let_def split: prod.splits)
qed

theorem update_with_alarm_composition_witness:
  "trace (snd (AnalogWatchWithAlarm_update
       (watch_add_alarm (AnalogWatchWithAlarm_init LightTheme 200) 7 0 0)
       \<lparr>clock = \<lambda>_. hms 7 0 0, reads = 0, trace = []\<rparr>))
     = [HandUpdate HourHand 210, HandUpdate MinuteHand 0, HandUpdate SecondHand 0, TriggerAlarm]
   \<and> trace (snd (AnalogWatchWithAlarm_update
       (watch_add_alarm (AnalogWatchWithAlarm_init LightTheme 200) 7 0 0)
       \<lparr>clock = \<lambda>_. hms 7 0 1, reads = 0, trace = []\<rparr>))
     = [HandUpdate HourHand 210,
        HandUpdate MinuteHand (3602879701896397 / 36028797018963968),
        HandUpdate SecondHand 6]"
proof -
  have a: "alarm (watch_add_alarm (AnalogWatchWithAlarm_init LightTheme 200) 7 0 0)
             = \<lparr>alarms = [(7, 0, 0)]\<rparr>"
    by (simp add: watch_add_alarm_def AnalogWatchWithAlarm_init_def AnalogWatch.extend_def
        AnalogWatchWithAlarm.fields_def add_alarm_def Alarm_init_def)
  have ang: "hour_angle \<lparr>hour = 7, minute = 0, second = 0\<rparr> = 210"
    "minute_angle \<lparr>hour = 7, minute = 0, second = 0\<rparr> = 0"
    "hour_angle \<lparr>hour = 7, minute = 0, second = 1\<rparr> = 210"
    "minute_angle \<lparr>hour = 7, minute = 0, second = 1\<rparr>
       = 3602879701896397 / 36028797018963968"
    by code_simp+
  show ?thesis
    using update_with_alarm_composition
        [of "watch_add_alarm (AnalogWatchWithAlarm_init LightTheme 200) 7 0 0"
            "\<lparr>clock = \<lambda>_. hms 7 0 0, reads = 0, trace = []\<rparr>"]
      update_with_alarm_composition
        [of "watch_add_alarm (AnalogWatchWithAlarm_init LightTheme 200) 7 0 0"
            "\<lparr>clock = \<lambda>_. hms 7 0 1, reads = 0, trace = []\<rparr>"]
    by (simp add: a check_alarms_def hms_def ang second_angle_def)
qed

section \<open>The run loop\<close>














section \<open>Configuration\<close>




end
